theory Spec2Isabelle
  imports Complex_Main "HOL-Library.Word"
begin

unbundle bit_operations_syntax

section \<open>Python values used by the packet engine\<close>

text \<open>
  A Python \<open>bytes\<close> object is a list of octets; indexing it yields an \<open>int\<close>.
  Python integers are unbounded and are modelled as \<open>int\<close>.
\<close>

type_synonym byte = "8 word"
type_synonym bytes = "byte list"

text \<open>Every exception the modelled code can raise is a value.\<close>

datatype error =
    AttributeError
  | EOFError
  | IndexError
  | NeedRekeyException
  | OSError
  | SSHException string
  | StructError
  | ZeroDivisionError

text \<open>
  Modelled from the spec: \<open>paramiko.common\<close> is not among the sources. Its
  constants \<open>zero_byte\<close>, \<open>max_byte\<close> and \<open>xffffffff\<close> are the one-octet strings
  0x00 and 0xFF (the redundant leading bytes of a multi-precision integer; \<open>kex_gss.py\<close>
  builds its constants \<open>b0000000000000000\<close> and \<open>b7fffffffffffffff\<close> from them) and
  the 32-bit mask; \<open>byte_ord\<close> gives the integer value of an element of a byte string.
\<close>

definition zero_byte :: bytes where
  "zero_byte = [0x00]"

definition max_byte :: bytes where
  "max_byte = [0xFF]"

definition xffffffff :: int where
  "xffffffff = 0xFFFFFFFF"

definition byte_ord :: "byte \<Rightarrow> int" where
  "byte_ord c = uint c"

text \<open>
  \<open>struct.pack('>I', x)\<close>: four octets, most significant first; \<open>struct.error\<close>
  when \<open>x\<close> is not an unsigned 32-bit value. \<open>struct.unpack('>I', b)[0]\<close> needs
  exactly four octets.
\<close>

definition be32 :: "int \<Rightarrow> bytes" where
  "be32 x = [word_of_int (x div 2 ^ 24), word_of_int (x div 2 ^ 16),
             word_of_int (x div 2 ^ 8), word_of_int x]"

definition pack_I :: "int \<Rightarrow> error + bytes" where
  "pack_I x = (if 0 \<le> x \<and> x < 2 ^ 32 then Inr (be32 x) else Inl StructError)"

fun unpack_I :: "bytes \<Rightarrow> error + int" where
  "unpack_I [a, b, c, d] =
     Inr (uint a * 2 ^ 24 + uint b * 2 ^ 16 + uint c * 2 ^ 8 + uint d)"
| "unpack_I _ = Inl StructError"

text \<open>
  Python slicing \<open>xs[lo:hi]\<close> with step 1: a negative bound counts from the end, every
  bound is clamped to the length, and an empty range gives the empty sequence. \<open>None\<close>
  is an omitted bound.
\<close>

definition slice_bound :: "int \<Rightarrow> nat \<Rightarrow> nat" where
  "slice_bound i len = (if i < 0 then nat (max (i + int len) 0) else min (nat i) len)"

definition py_slice :: "'a list \<Rightarrow> int option \<Rightarrow> int option \<Rightarrow> 'a list" where
  "py_slice xs lo hi =
     (let a = (case lo of None \<Rightarrow> 0 | Some i \<Rightarrow> slice_bound i (length xs));
          b = (case hi of None \<Rightarrow> length xs | Some j \<Rightarrow> slice_bound j (length xs))
      in take (b - a) (drop a xs))"

text \<open>
  Comparing an element of a byte string with a one-character \<open>str\<close> literal compares an
  \<open>int\<close> with a \<open>str\<close>; values of different types are never equal.
\<close>

datatype pyval = PyInt int | PyStr string

section \<open>util.py: multi-precision integers\<close>

text \<open>The loop of \<open>inflate_long\<close> over \<open>range(0, len(s), 4)\<close>.\<close>

fun inflate_loop :: "int \<Rightarrow> bytes \<Rightarrow> error + int" where
  "inflate_loop out [] = Inr out"
| "inflate_loop out (a # b # c # d # rest) =
     (case unpack_I [a, b, c, d] of
        Inl e \<Rightarrow> Inl e
      | Inr v \<Rightarrow> inflate_loop (push_bit 32 out + v) rest)"
| "inflate_loop out _ = Inl StructError"

definition inflate_long :: "bytes \<Rightarrow> bool \<Rightarrow> error + int" where
  "inflate_long s0 always_positive =
     (let negative = (\<not> always_positive \<and> length s0 > 0 \<and> byte_ord (hd s0) AND 0x80 \<noteq> 0);
          s = (if length s0 mod 4 \<noteq> 0
               then concat (replicate (4 - length s0 mod 4) zero_byte) @ s0 else s0)
      in case inflate_loop 0 s of
           Inl e \<Rightarrow> Inl e
         | Inr out \<Rightarrow>
             if negative
             then (let out' = push_bit (8 * length s) 1 - out
                   in if out' = 0 then Inr (- 1) else Inr out')
             else Inr out)"

text \<open>The \<open>while\<close> loop of \<open>deflate_long\<close>; it returns the final \<open>n\<close> and \<open>s\<close>.\<close>

function deflate_loop :: "int \<Rightarrow> bytes \<Rightarrow> int \<times> bytes" where
  "deflate_loop n s =
     (if n \<noteq> 0 \<and> n \<noteq> - 1
      then deflate_loop (drop_bit 32 n) (be32 (n AND xffffffff) @ s)
      else (n, s))"
  by pat_completeness auto
termination
proof (relation "measure (\<lambda>(n, s). nat \<bar>n\<bar>)")
  show "wf (measure (\<lambda>(n, s). nat \<bar>n\<bar>))" by simp
next
  fix n :: int and s :: bytes
  assume n: "n \<noteq> 0 \<and> n \<noteq> - 1"
  have "\<bar>n div 4294967296\<bar> < \<bar>n\<bar>"
  proof (cases "0 < n")
    case True
    then have "n div 4294967296 < n" by (rule int_div_less_self) simp
    moreover have "0 \<le> n div 4294967296" using True by simp
    ultimately show ?thesis by simp
  next
    case False
    with n have lt: "n < - 1" by simp
    have neg: "n div 4294967296 < 0" using lt by simp
    have "n = (n div 4294967296) * 4294967296 + n mod 4294967296" by simp
    moreover have "n mod 4294967296 < 4294967296" by simp
    ultimately have "n < n div 4294967296" using lt neg by linarith
    with neg show ?thesis by simp
  qed
  then show "((drop_bit 32 n, be32 (n AND xffffffff) @ s), (n, s))
               \<in> measure (\<lambda>(n, s). nat \<bar>n\<bar>)"
    by (simp add: drop_bit_eq_div)
qed

declare deflate_loop.simps [simp del]

text \<open>
  The \<open>for\<close> loop that looks for the first byte to keep: \<open>Some i\<close> is the index at
  which it breaks, \<open>None\<close> means that it ran to its end (the \<open>else\<close> branch).
\<close>

fun strip_scan :: "bytes \<Rightarrow> nat \<Rightarrow> nat option" where
  "strip_scan [] i = None"
| "strip_scan (b # bs) i =
     (if PyInt (uint b) \<noteq> PyStr [CHR 0x00] \<and> PyInt (uint b) \<noteq> PyStr [CHR 0xFF]
      then Some i else strip_scan bs (Suc i))"

definition deflate_long :: "int \<Rightarrow> bool \<Rightarrow> bytes" where
  "deflate_long n0 add_sign_padding =
     (let (n, s1) = deflate_loop n0 [];
          (s2, i) = (case strip_scan s1 0 of
                       Some i \<Rightarrow> (s1, i)
                     | None \<Rightarrow> (zero_byte, if n = 0 then 0 else 1));
          s3 = drop i s2;
          s4 = (if add_sign_padding \<and> n = 0 \<and> length s3 > 0 \<and> byte_ord (hd s3) AND 0x80 \<noteq> 0
                then zero_byte @ s3 else s3);
          s5 = (if add_sign_padding \<and> n < 0 \<and> length s4 > 0 \<and> \<not> (byte_ord (hd s4) AND 0x80 \<noteq> 0)
                then max_byte @ s4 else s4)
      in s5)"

section \<open>packet.py: the environment of a Packetizer\<close>

text \<open>
  The socket is the only collaborator that performs I/O. Its state is the bytes that the
  peer has written and that were not received yet, the largest number of bytes that one
  \<open>recv\<close> hands over, the bytes written so far, and how many more bytes can be written
  before the connection breaks (\<open>None\<close>: it never breaks). \<open>recv\<close> on an exhausted
  stream returns the empty string, as a closed connection does.
\<close>

record socket =
  inbuf :: bytes
  chunk :: nat
  outbuf :: bytes
  wcap :: "nat option"

definition recv :: "socket \<Rightarrow> int \<Rightarrow> bytes \<times> socket" where
  "recv sock k =
     (let buf = take (min (nat k) (chunk sock)) (inbuf sock)
      in (buf, sock\<lparr>inbuf := drop (length buf) (inbuf sock)\<rparr>))"

definition sendall :: "socket \<Rightarrow> bytes \<Rightarrow> (error + unit) \<times> socket" where
  "sendall sock data =
     (case wcap sock of
        None \<Rightarrow> (Inr (), sock\<lparr>outbuf := outbuf sock @ data\<rparr>)
      | Some k \<Rightarrow>
          if length data \<le> k
          then (Inr (), sock\<lparr>outbuf := outbuf sock @ data, wcap := Some (k - length data)\<rparr>)
          else (Inl OSError, sock\<lparr>outbuf := outbuf sock @ take k data, wcap := Some 0\<rparr>))"

text \<open>
  The cipher and MAC engines are objects handed in by the key exchange. The packet code
  calls \<open>encrypt(data)\<close> on a block engine, \<open>digest(key, seq, payload)\<close> on the
  outbound MAC engine and \<open>digest(key, mac_payload)\<close> on the inbound one; an engine is
  what these calls compute.
\<close>

datatype cipher_engine = CipherEngine (encrypt: "bytes \<Rightarrow> bytes")

datatype mac_engine =
  MacEngine (digest3: "bytes \<Rightarrow> int \<Rightarrow> bytes \<Rightarrow> bytes") (digest2: "bytes \<Rightarrow> bytes \<Rightarrow> bytes")

datatype timer = Timer (interval: real) (cancelled: bool)

section \<open>packet.py: the Packetizer\<close>

text \<open>
  The attributes of a \<open>Packetizer\<close>, in the order in which \<open>__init__\<close> assigns them.
  The logger, the write lock, the compression engines and the keepalive attributes are
  left out: none of the methods below reads or writes them. \<open>closed_flag\<close> is the
  attribute \<open>__closed\<close> and \<open>need_rekey_flag\<close> the attribute \<open>__need_rekey\<close>, which
  shares its name with the method.
\<close>

record packetizer =
  socket :: socket
  closed_flag :: bool
  dump_packets :: bool
  need_rekey_flag :: bool
  init_count :: int
  remainder :: bytes
  initial_kex_done :: bool
  sent_bytes :: int
  sent_packets :: int
  received_bytes :: int
  received_packets :: int
  received_bytes_overflow :: int
  received_packets_overflow :: int
  block_size_out :: int
  block_size_in :: int
  mac_size_out :: int
  mac_size_in :: int
  block_engine_out :: "cipher_engine option"
  block_engine_in :: "cipher_engine option"
  sdctr_out :: bool
  mac_engine_out :: "mac_engine option"
  mac_engine_in :: "mac_engine option"
  mac_key_out :: bytes
  mac_key_in :: bytes
  sequence_number_out :: int
  sequence_number_in :: int
  etm_out :: bool
  etm_in :: bool
  timer :: "timer option"
  handshake_complete :: bool
  timer_expired :: bool

definition REKEY_PACKETS :: int where
  "REKEY_PACKETS = 2 ^ 29"

definition REKEY_BYTES :: int where
  "REKEY_BYTES = 2 ^ 29"

definition init :: "socket \<Rightarrow> packetizer" where
  "init sock =
     \<lparr>socket = sock, closed_flag = False, dump_packets = False, need_rekey_flag = False,
      init_count = 0, remainder = [], initial_kex_done = False,
      sent_bytes = 0, sent_packets = 0, received_bytes = 0, received_packets = 0,
      received_bytes_overflow = 0, received_packets_overflow = 0,
      block_size_out = 8, block_size_in = 8, mac_size_out = 0, mac_size_in = 0,
      block_engine_out = None, block_engine_in = None, sdctr_out = False,
      mac_engine_out = None, mac_engine_in = None, mac_key_out = [], mac_key_in = [],
      sequence_number_out = 0, sequence_number_in = 0, etm_out = False, etm_in = False,
      timer = None, handshake_complete = False, timer_expired = False\<rparr>"

definition set_outbound_cipher ::
  "packetizer \<Rightarrow> cipher_engine option \<Rightarrow> int \<Rightarrow> mac_engine option \<Rightarrow> int \<Rightarrow> bytes \<Rightarrow> bool \<Rightarrow> bool
     \<Rightarrow> packetizer" where
  "set_outbound_cipher s block_engine block_size mac_engine mac_size mac_key sdctr etm =
     s\<lparr>block_engine_out := block_engine, block_size_out := block_size,
       mac_engine_out := mac_engine, mac_size_out := mac_size, mac_key_out := mac_key,
       sdctr_out := sdctr, etm_out := etm\<rparr>"

definition set_inbound_cipher ::
  "packetizer \<Rightarrow> cipher_engine option \<Rightarrow> int \<Rightarrow> mac_engine option \<Rightarrow> int \<Rightarrow> bytes \<Rightarrow> bool
     \<Rightarrow> packetizer" where
  "set_inbound_cipher s block_engine block_size mac_engine mac_size mac_key etm =
     s\<lparr>block_engine_in := block_engine, block_size_in := block_size,
       mac_engine_in := mac_engine, mac_size_in := mac_size, mac_key_in := mac_key,
       etm_in := etm\<rparr>"

definition need_rekey :: "packetizer \<Rightarrow> bool" where
  "need_rekey s =
     (need_rekey_flag s \<or> sent_bytes s \<ge> REKEY_BYTES \<or> sent_packets s \<ge> REKEY_PACKETS)"

text \<open>
  \<open>start_handshake\<close> clears the completion flag and then evaluates
  \<open>self.__handshake_timed_out\<close>, the callback for the timer. Inside the class this name
  is the attribute \<open>_Packetizer__handshake_timed_out\<close>, which neither the class nor
  \<open>__init__\<close> defines (the query method is \<open>handshake_timed_out\<close>, without the
  underscores), so the lookup raises before a \<open>Timer\<close> is built or started.
\<close>

definition start_handshake :: "packetizer \<Rightarrow> real \<Rightarrow> (error + unit) \<times> packetizer" where
  "start_handshake s timeout = (Inl AttributeError, s\<lparr>handshake_complete := False\<rparr>)"

definition handshake_timed_out :: "packetizer \<Rightarrow> bool" where
  "handshake_timed_out s = (timer_expired s \<and> \<not> handshake_complete s)"

definition complete_handshake :: "packetizer \<Rightarrow> packetizer" where
  "complete_handshake s =
     (let s1 = s\<lparr>handshake_complete := True\<rparr>
      in case timer s1 of
           None \<Rightarrow> s1
         | Some t \<Rightarrow> s1\<lparr>timer := Some (Timer (interval t) True)\<rparr>)"

text \<open>The loop of \<open>read_all\<close>: every round either raises or makes \<open>out\<close> longer.\<close>

function read_all_loop :: "socket \<Rightarrow> int \<Rightarrow> bytes \<Rightarrow> (error + bytes) \<times> socket" where
  "read_all_loop sock n out =
     (if int (length out) < n
      then (let r = recv sock (n - int (length out))
            in if length (fst r) = 0 then (Inl EOFError, snd r)
               else read_all_loop (snd r) n (out @ fst r))
      else (Inr out, sock))"
  by pat_completeness auto
termination
  by (relation "measure (\<lambda>(sock, n, out). nat (n - int (length out)))") auto

declare read_all_loop.simps [simp del]

definition read_all :: "packetizer \<Rightarrow> int \<Rightarrow> bool \<Rightarrow> (error + bytes) \<times> packetizer" where
  "read_all s n check_rekey =
     (case read_all_loop (socket s) n [] of
        (Inl e, sock') \<Rightarrow> (Inl e, s\<lparr>socket := sock'\<rparr>)
      | (Inr out, sock') \<Rightarrow>
          (let s' = s\<lparr>socket := sock'\<rparr>
           in if check_rekey \<and> need_rekey s' then (Inl NeedRekeyException, s')
              else (Inr out, s')))"

definition send_message :: "packetizer \<Rightarrow> bytes \<Rightarrow> (error + unit) \<times> packetizer" where
  "send_message s data =
     (case block_engine_out s of
        None \<Rightarrow> (Inl AttributeError, s)
      | Some be \<Rightarrow>
          (let payload = encrypt be data
           in case mac_engine_out s of
                None \<Rightarrow> (Inl AttributeError, s)
              | Some me \<Rightarrow>
                  (let mac = digest3 me (mac_key_out s) (sequence_number_out s) payload
                   in case pack_I (int (length payload)) of
                        Inl e \<Rightarrow> (Inl e, s)
                      | Inr len \<Rightarrow>
                          (let packet = len @ payload @ mac;
                               s1 = s\<lparr>sequence_number_out :=
                                        (sequence_number_out s + 1) AND 0xffffffff\<rparr>
                           in case sendall (socket s1) packet of
                                (Inl e, sock') \<Rightarrow> (Inl e, s1\<lparr>socket := sock'\<rparr>)
                              | (Inr u, sock') \<Rightarrow>
                                  (Inr (),
                                   s1\<lparr>socket := sock',
                                      sent_bytes := sent_bytes s1 + int (length packet),
                                      sent_packets := sent_packets s1 + 1\<rparr>)))))"

text \<open>
  \<open>read_message\<close> in three parts. \<open>read_frame\<close> is the code up to the split of the
  body into \<open>packet\<close> and \<open>mac\<close>; it yields \<open>(packet_size, packet, mac)\<close>.
\<close>

definition read_frame :: "packetizer \<Rightarrow> (error + int \<times> bytes \<times> bytes) \<times> packetizer" where
  "read_frame s =
     (case read_all s (block_size_in s) True of
        (Inl e, s1) \<Rightarrow> (Inl e, s1)
      | (Inr header, s1) \<Rightarrow>
          (case unpack_I (py_slice header None (Some 4)) of
             Inl e \<Rightarrow> (Inl e, s1)
           | Inr packet_size \<Rightarrow>
               (let leftover = py_slice header (Some 4) None
                in if block_size_in s1 = 0 then (Inl ZeroDivisionError, s1)
                   else if (packet_size - int (length leftover)) mod block_size_in s1 \<noteq> 0
                   then (Inl (SSHException ''Invalid packet blocking''), s1)
                   else (case read_all s1 (packet_size + mac_size_in s1 - int (length leftover))
                                False of
                           (Inl e, s2) \<Rightarrow> (Inl e, s2)
                         | (Inr buf, s2) \<Rightarrow>
                             (let packet = leftover @ py_slice buf None (Some (- mac_size_in s2));
                                  mac = py_slice buf (Some (- mac_size_in s2)) None
                              in (Inr (packet_size, packet, mac), s2))))))"

text \<open>The MAC check: \<open>Some e\<close> is the exception raised, \<open>None\<close> lets the frame pass.\<close>

definition verify_mac :: "packetizer \<Rightarrow> bytes \<Rightarrow> bytes \<Rightarrow> error option" where
  "verify_mac s packet mac =
     (if mac_size_in s > 0
      then (case pack_I (sequence_number_in s) of
              Inl e \<Rightarrow> Some e
            | Inr sq \<Rightarrow>
                (case mac_engine_in s of
                   None \<Rightarrow> Some AttributeError
                 | Some me \<Rightarrow>
                     if digest2 me (mac_key_in s) (sq @ packet) \<noteq> mac
                     then Some (SSHException ''Mismatched MAC'') else None))
      else None)"

text \<open>The rest: the padding is stripped and the inbound counters advance.\<close>

definition deliver :: "packetizer \<Rightarrow> int \<Rightarrow> bytes \<Rightarrow> (error + bytes) \<times> packetizer" where
  "deliver s packet_size packet =
     (case packet of
        [] \<Rightarrow> (Inl IndexError, s)
      | p0 # rest \<Rightarrow>
          (let padding = byte_ord p0;
               payload = py_slice packet (Some 1) (Some (packet_size - padding));
               s1 = s\<lparr>sequence_number_in := (sequence_number_in s + 1) AND 0xffffffff,
                      received_bytes := received_bytes s + (packet_size + mac_size_in s + 4),
                      received_packets := received_packets s + 1\<rparr>
           in if need_rekey s1 then (Inl NeedRekeyException, s1) else (Inr payload, s1)))"

definition read_message :: "packetizer \<Rightarrow> (error + bytes) \<times> packetizer" where
  "read_message s =
     (case read_frame s of
        (Inl e, s2) \<Rightarrow> (Inl e, s2)
      | (Inr (packet_size, packet, mac), s2) \<Rightarrow>
          (case verify_mac s2 packet mac of
             Some e \<Rightarrow> (Inl e, s2)
           | None \<Rightarrow> deliver s2 packet_size packet))"

text \<open>
  A loopback pair: the receiving engine's socket holds exactly the bytes that the sending
  engine has written.
\<close>

definition loopback :: "packetizer \<Rightarrow> packetizer \<Rightarrow> packetizer" where
  "loopback sender receiver =
     receiver\<lparr>socket := (socket receiver)\<lparr>inbuf := outbuf (socket sender)\<rparr>\<rparr>"

text \<open>
  What can happen to an engine during its life: a call of one of its methods, or the peer
  writing bytes to the stream. \<open>step\<close> gives the state that the call leaves behind,
  whether it returns or raises; \<open>run\<close> does so for a sequence of events, from left to
  right. No other code touches the attributes: the only background activity that the class
  provides for is the handshake timer, and \<open>timer\<close> records whether one exists.
\<close>

datatype event =
    SetOutboundCipher "cipher_engine option" int "mac_engine option" int bytes bool bool
  | SetInboundCipher "cipher_engine option" int "mac_engine option" int bytes bool
  | NeedRekey
  | StartHandshake real
  | HandshakeTimedOut
  | CompleteHandshake
  | ReadAll int bool
  | SendMessage bytes
  | ReadMessage
  | PeerSends bytes

fun step :: "packetizer \<Rightarrow> event \<Rightarrow> packetizer" where
  "step s (SetOutboundCipher be bs me ms mk sdctr etm) =
     set_outbound_cipher s be bs me ms mk sdctr etm"
| "step s (SetInboundCipher be bs me ms mk etm) = set_inbound_cipher s be bs me ms mk etm"
| "step s NeedRekey = s"
| "step s (StartHandshake timeout) = snd (start_handshake s timeout)"
| "step s HandshakeTimedOut = s"
| "step s CompleteHandshake = complete_handshake s"
| "step s (ReadAll n check_rekey) = snd (read_all s n check_rekey)"
| "step s (SendMessage data) = snd (send_message s data)"
| "step s ReadMessage = snd (read_message s)"
| "step s (PeerSends data) = s\<lparr>socket := (socket s)\<lparr>inbuf := inbuf (socket s) @ data\<rparr>\<rparr>"

definition run :: "packetizer \<Rightarrow> event list \<Rightarrow> packetizer" where
  "run s evs = foldl step s evs"

section \<open>Auxiliary facts\<close>

text \<open>Reading changes nothing but the socket.\<close>

lemma read_all_only_socket:
  "read_all s n c = (r, s') \<Longrightarrow> s' = s\<lparr>socket := snd (read_all_loop (socket s) n [])\<rparr>"
  unfolding read_all_def Let_def
  by (cases "read_all_loop (socket s) n []"; cases "fst (read_all_loop (socket s) n [])")
     (auto split: if_splits)

lemma read_frame_only_socket:
  assumes "read_frame s = (r, s')"
  shows "\<exists>k. s' = s\<lparr>socket := k\<rparr>"
proof -
  obtain r1 s1 where r1: "read_all s (block_size_in s) True = (r1, s1)"
    by (cases "read_all s (block_size_in s) True")
  obtain k1 where s1: "s1 = s\<lparr>socket := k1\<rparr>"
    using read_all_only_socket [OF r1] by blast
  have step2: "\<exists>k. s2 = s\<lparr>socket := k\<rparr>" if "read_all s1 m False = (r2, s2)" for m r2 s2
    using read_all_only_socket [OF that] by (auto simp: s1)
  show ?thesis
  proof (cases r1)
    case (Inl e)
    with assms r1 s1 show ?thesis by (auto simp: read_frame_def)
  next
    case (Inr header)
    note hdr = this
    show ?thesis
    proof (cases "unpack_I (py_slice header None (Some 4))")
      case (Inl e)
      with assms r1 s1 hdr show ?thesis by (auto simp: read_frame_def)
    next
      case (Inr packet_size)
      obtain r2 s2 where r2: "read_all s1 (packet_size + mac_size_in s1 -
          int (length (py_slice header (Some 4) None))) False = (r2, s2)"
        by (cases "read_all s1 (packet_size + mac_size_in s1 -
          int (length (py_slice header (Some 4) None))) False")
      from step2 [OF r2] obtain k2 where s2: "s2 = s\<lparr>socket := k2\<rparr>" by blast
      have "s' = s1 \<or> s' = s2"
        using assms r1 hdr Inr r2 unfolding read_frame_def Let_def
        by (cases r2) (simp_all split: if_splits)
      then show ?thesis using s1 s2 by blast
    qed
  qed
qed

text \<open>Sending changes the socket and the three outbound counters, nothing else.\<close>

lemma send_message_changes:
  "(snd (send_message s data))\<lparr>socket := socket s,
      sequence_number_out := sequence_number_out s,
      sent_bytes := sent_bytes s, sent_packets := sent_packets s\<rparr> = s"
proof (cases "block_engine_out s")
  case None
  then show ?thesis by (simp add: send_message_def)
next
  case (Some be)
  note be = this
  show ?thesis
  proof (cases "mac_engine_out s")
    case None
    with be show ?thesis by (simp add: send_message_def)
  next
    case (Some me)
    note me = this
    show ?thesis
    proof (cases "pack_I (int (length (encrypt be data)))")
      case (Inl e)
      with be me show ?thesis by (simp add: send_message_def)
    next
      case (Inr len)
      note len = this
      obtain r k where w: "sendall (socket s) (len @ encrypt be data @
          digest3 me (mac_key_out s) (sequence_number_out s) (encrypt be data)) = (r, k)"
        by (cases "sendall (socket s) (len @ encrypt be data @
          digest3 me (mac_key_out s) (sequence_number_out s) (encrypt be data))")
      show ?thesis
        using be me len w by (cases r) (simp_all add: send_message_def Let_def)
    qed
  qed
qed

text \<open>Receiving changes the socket and the three inbound counters, nothing else.\<close>

lemma deliver_changes:
  "(snd (deliver s packet_size packet))\<lparr>sequence_number_in := sequence_number_in s,
      received_bytes := received_bytes s, received_packets := received_packets s\<rparr> = s"
  by (cases packet) (simp_all add: deliver_def Let_def)


lemma read_message_changes:
  "(snd (read_message s))\<lparr>socket := socket s, sequence_number_in := sequence_number_in s,
      received_bytes := received_bytes s, received_packets := received_packets s\<rparr> = s"
proof -
  obtain r s2 where rf: "read_frame s = (r, s2)" by (cases "read_frame s")
  from read_frame_only_socket [OF rf] obtain k where s2: "s2 = s\<lparr>socket := k\<rparr>" by blast
  show ?thesis
  proof (cases r)
    case (Inl e)
    with rf show ?thesis by (simp add: read_message_def s2)
  next
    case (Inr f)
    obtain packet_size packet mac where f: "f = (packet_size, packet, mac)" by (cases f)
    show ?thesis
    proof (cases "verify_mac s2 packet mac")
      case (Some e)
      with rf Inr f show ?thesis by (simp add: read_message_def s2)
    next
      case None
      have "snd (read_message s) = snd (deliver s2 packet_size packet)"
        using rf Inr f None by (simp add: read_message_def)
      moreover have "(snd (deliver s2 packet_size packet))\<lparr>socket := socket s,
          sequence_number_in := sequence_number_in s, received_bytes := received_bytes s,
          received_packets := received_packets s\<rparr> = s"
        by (cases packet) (simp_all add: deliver_def Let_def s2)
      ultimately show ?thesis by simp
    qed
  qed
qed

text \<open>No event creates a timer or sets the expiry flag.\<close>

lemma step_keeps_timer:
  "timer s = None \<Longrightarrow>
     timer (step s ev) = None \<and> timer_expired (step s ev) = timer_expired s"
proof (cases ev)
  case (SendMessage data)
  have "timer (snd (send_message s data)) = timer s"
    using arg_cong [OF send_message_changes [of s data], of timer] by simp
  moreover have "timer_expired (snd (send_message s data)) = timer_expired s"
    using arg_cong [OF send_message_changes [of s data], of timer_expired] by simp
  ultimately show "timer s = None \<Longrightarrow> ?thesis" unfolding SendMessage by simp
next
  case ReadMessage
  have "timer (snd (read_message s)) = timer s"
    using arg_cong [OF read_message_changes [of s], of timer] by simp
  moreover have "timer_expired (snd (read_message s)) = timer_expired s"
    using arg_cong [OF read_message_changes [of s], of timer_expired] by simp
  ultimately show "timer s = None \<Longrightarrow> ?thesis" unfolding ReadMessage by simp
next
  case (ReadAll n c)
  from read_all_only_socket [of s n c "fst (read_all s n c)" "snd (read_all s n c)"]
  have "snd (read_all s n c) = s\<lparr>socket := snd (read_all_loop (socket s) n [])\<rparr>" by simp
  then show "timer s = None \<Longrightarrow> ?thesis" unfolding ReadAll by simp
next
  case CompleteHandshake
  then show "timer s = None \<Longrightarrow> ?thesis" by (simp add: complete_handshake_def Let_def)
qed (simp_all add: set_outbound_cipher_def set_inbound_cipher_def start_handshake_def)

lemma run_keeps_timer:
  "timer s = None \<Longrightarrow> timer (run s evs) = None \<and> timer_expired (run s evs) = timer_expired s"
proof (induction evs rule: rev_induct)
  case Nil
  then show ?case by (simp add: run_def)
next
  case (snoc ev evs)
  then have a: "timer (run s evs) = None" and b: "timer_expired (run s evs) = timer_expired s"
    by simp_all
  have c: "run s (evs @ [ev]) = step (run s evs) ev" by (simp add: run_def)
  show ?case
    using step_keeps_timer [OF a, of ev] b unfolding c by simp
qed

text \<open>What a successful read returns, and how a read can fail.\<close>

lemma unpack_I_length: "unpack_I bs = Inr v \<Longrightarrow> length bs = 4"
  by (cases bs rule: unpack_I.cases) simp_all

lemma recv_length: "length (fst (recv sock k)) \<le> nat k"
  by (simp add: recv_def Let_def)

lemma read_all_loop_length:
  "read_all_loop sock n out = (Inr res, sock') \<Longrightarrow> int (length out) \<le> n
     \<Longrightarrow> int (length res) = n"
proof (induction sock n out rule: read_all_loop.induct)
  case (1 sock n out)
  show ?case
  proof (cases "int (length out) < n")
    case False
    with "1.prems" show ?thesis by (simp add: read_all_loop.simps [of sock n out])
  next
    case True
    define r where "r = recv sock (n - int (length out))"
    have nz: "length (fst r) \<noteq> 0"
      using "1.prems"(1) True
      by (auto simp: read_all_loop.simps [of sock n out] Let_def r_def)
    have rec: "read_all_loop (snd r) n (out @ fst r) = (Inr res, sock')"
      using "1.prems"(1) True nz
      by (simp add: read_all_loop.simps [of sock n out] Let_def r_def)
    have "length (fst r) \<le> nat (n - int (length out))"
      unfolding r_def by (rule recv_length)
    then have le: "int (length (out @ fst r)) \<le> n" using True by simp
    show ?thesis
      using "1.IH" [OF True r_def nz rec le] .
  qed
qed

lemma read_all_loop_error:
  "read_all_loop sock n out = (Inl e, sock') \<Longrightarrow> e = EOFError"
proof (induction sock n out rule: read_all_loop.induct)
  case (1 sock n out)
  show ?case
  proof (cases "int (length out) < n")
    case False
    with "1.prems" show ?thesis by (simp add: read_all_loop.simps [of sock n out])
  next
    case True
    define r where "r = recv sock (n - int (length out))"
    show ?thesis
    proof (cases "length (fst r) = 0")
      case z: True
      with "1.prems" True show ?thesis
        by (simp add: read_all_loop.simps [of sock n out] Let_def r_def)
    next
      case nz: False
      have rec: "read_all_loop (snd r) n (out @ fst r) = (Inl e, sock')"
        using "1.prems"(1) True nz
        by (simp add: read_all_loop.simps [of sock n out] Let_def r_def)
      show ?thesis using "1.IH" [OF True r_def nz rec] .
    qed
  qed
qed

lemma read_all_header_length:
  assumes "fst (read_all s n c) = Inr header" and "header \<noteq> []"
  shows "int (length header) = n"
proof -
  obtain r k where l: "read_all_loop (socket s) n [] = (r, k)"
    by (cases "read_all_loop (socket s) n []")
  from assms(1) l have r: "r = Inr header"
    by (cases r) (simp_all add: read_all_def Let_def split: if_splits)
  have "0 \<le> n"
  proof (rule ccontr)
    assume "\<not> 0 \<le> n"
    then have "read_all_loop (socket s) n [] = (Inr [], socket s)"
      by (simp add: read_all_loop.simps [of "socket s" n "[]"])
    with l r assms(2) show False by simp
  qed
  with read_all_loop_length [of "socket s" n "[]" header k] l r show ?thesis by simp
qed

lemma read_all_unchecked_error:
  "fst (read_all s n False) = Inl e \<Longrightarrow> e = EOFError"
proof -
  assume a: "fst (read_all s n False) = Inl e"
  obtain r k where l: "read_all_loop (socket s) n [] = (r, k)"
    by (cases "read_all_loop (socket s) n []")
  from a l have "r = Inl e"
    by (cases r) (simp_all add: read_all_def Let_def)
  with l read_all_loop_error show ?thesis by blast
qed

lemma py_slice_head4: "py_slice xs None (Some 4) = take 4 xs"
  by (simp add: py_slice_def slice_bound_def Let_def min_def)

lemma py_slice_tail4: "py_slice xs (Some 4) None = drop 4 xs"
  by (simp add: py_slice_def slice_bound_def Let_def min_def)

text \<open>The inbound sequence number of an engine is always a 32-bit value.\<close>

lemma mask32_range: "0 \<le> (x :: int) AND 0xffffffff \<and> x AND 0xffffffff < 2 ^ 32"
proof -
  have "x AND 0xffffffff \<le> (0xffffffff :: int)" by (rule AND_upper2) simp
  then show ?thesis by simp
qed

lemma read_message_sequence_number:
  "sequence_number_in (snd (read_message s)) = sequence_number_in s \<or>
   sequence_number_in (snd (read_message s)) = (sequence_number_in s + 1) AND 0xffffffff"
proof -
  obtain r s2 where rf: "read_frame s = (r, s2)" by (cases "read_frame s")
  from read_frame_only_socket [OF rf] obtain k where s2: "s2 = s\<lparr>socket := k\<rparr>" by blast
  show ?thesis
  proof (cases r)
    case (Inl e)
    with rf show ?thesis by (simp add: read_message_def s2)
  next
    case (Inr f)
    obtain packet_size packet mac where f: "f = (packet_size, packet, mac)" by (cases f)
    show ?thesis
    proof (cases "verify_mac s2 packet mac")
      case (Some e)
      with rf Inr f show ?thesis by (simp add: read_message_def s2)
    next
      case None
      have "snd (read_message s) = snd (deliver s2 packet_size packet)"
        using rf Inr f None by (simp add: read_message_def)
      then show ?thesis
        by (cases packet) (simp_all add: deliver_def Let_def s2)
    qed
  qed
qed

lemma step_sequence_number_in_range:
  assumes "0 \<le> sequence_number_in s \<and> sequence_number_in s < 2 ^ 32"
  shows "0 \<le> sequence_number_in (step s ev) \<and> sequence_number_in (step s ev) < 2 ^ 32"
proof (cases ev)
  case (SendMessage data)
  have "sequence_number_in (snd (send_message s data)) = sequence_number_in s"
    using arg_cong [OF send_message_changes [of s data], of sequence_number_in] by simp
  with assms show ?thesis unfolding SendMessage by simp
next
  case ReadMessage
  from read_message_sequence_number [of s] mask32_range [of "sequence_number_in s + 1"] assms
  show ?thesis unfolding ReadMessage by auto
next
  case (ReadAll n c)
  from read_all_only_socket [of s n c "fst (read_all s n c)" "snd (read_all s n c)"]
  have "snd (read_all s n c) = s\<lparr>socket := snd (read_all_loop (socket s) n [])\<rparr>" by simp
  with assms show ?thesis unfolding ReadAll by simp
next
  case CompleteHandshake
  with assms show ?thesis
    by (cases "timer s") (simp_all add: complete_handshake_def Let_def)
qed (use assms in \<open>simp_all add: set_outbound_cipher_def set_inbound_cipher_def start_handshake_def\<close>)

lemma run_sequence_number_in_range:
  "0 \<le> sequence_number_in (run (init sock) evs) \<and>
   sequence_number_in (run (init sock) evs) < 2 ^ 32"
proof (induction evs rule: rev_induct)
  case Nil
  show ?case by (simp add: run_def init_def)
next
  case (snoc ev evs)
  have "run (init sock) (evs @ [ev]) = step (run (init sock) evs) ev" by (simp add: run_def)
  with step_sequence_number_in_range [OF snoc.IH, of ev] show ?case by simp
qed

section \<open>Properties\<close>

subsection \<open>Framing\<close>

text \<open>
  C1. The round-trip law asks that a payload sent by one engine is returned unchanged by
  its peer. The code does not satisfy it. A fresh engine (the "none" cipher: no block
  engine, no MAC engine) cannot send at all, because \<open>send_message\<close> calls
  \<open>encrypt\<close> on the unset engine. With an identity cipher and an empty MAC on both
  sides, block size 8, the four-byte payload 01 02 03 04 is framed as
  00 00 00 04 01 02 03 04, and the peer, which takes the first byte after the length for
  a padding length that the sender never wrote, returns 02 03.
\<close>

theorem roundtrip_changes_payload:
  "fst (send_message (init sock) data) = Inl AttributeError \<and>
   fst (read_message
     (loopback
        (snd (send_message
           (set_outbound_cipher (init \<lparr>inbuf = [], chunk = 64, outbuf = [], wcap = None\<rparr>)
              (Some (CipherEngine (\<lambda>d. d))) 8
              (Some (MacEngine (\<lambda>k q p. []) (\<lambda>k p. []))) 0 [] False False)
           [0x01, 0x02, 0x03, 0x04]))
        (set_inbound_cipher (init \<lparr>inbuf = [], chunk = 64, outbuf = [], wcap = None\<rparr>)
           (Some (CipherEngine (\<lambda>d. d))) 8
           (Some (MacEngine (\<lambda>k q p. []) (\<lambda>k p. []))) 0 [] False)))
   = Inr [0x02, 0x03]"
proof
  show "fst (send_message (init sock) data) = Inl AttributeError"
    by (simp add: send_message_def init_def)
next
  show "fst (read_message
     (loopback
        (snd (send_message
           (set_outbound_cipher (init \<lparr>inbuf = [], chunk = 64, outbuf = [], wcap = None\<rparr>)
              (Some (CipherEngine (\<lambda>d. d))) 8
              (Some (MacEngine (\<lambda>k q p. []) (\<lambda>k p. []))) 0 [] False False)
           [0x01, 0x02, 0x03, 0x04]))
        (set_inbound_cipher (init \<lparr>inbuf = [], chunk = 64, outbuf = [], wcap = None\<rparr>)
           (Some (CipherEngine (\<lambda>d. d))) 8
           (Some (MacEngine (\<lambda>k q p. []) (\<lambda>k p. []))) 0 [] False)))
   = Inr [0x02, 0x03]"
    by code_simp
qed

text \<open>
  C2. The frame that \<open>send_message\<close> writes is the length of the encrypted payload,
  the encrypted payload and the MAC: there is no padding-length field and no padding.
  With an identity cipher, block size 8 and an empty MAC, the one-byte payload 61 leaves
  as the five bytes 00 00 00 01 61, and five is not a multiple of eight.
\<close>

theorem send_message_frame_unpadded:
  "outbuf (socket (snd (send_message
      (set_outbound_cipher (init \<lparr>inbuf = [], chunk = 64, outbuf = [], wcap = None\<rparr>)
         (Some (CipherEngine (\<lambda>d. d))) 8
         (Some (MacEngine (\<lambda>k q p. []) (\<lambda>k p. []))) 0 [] False False)
      [0x61]))) = [0x00, 0x00, 0x00, 0x01, 0x61]"
  by (simp add: send_message_def set_outbound_cipher_def init_def pack_I_def be32_def
      sendall_def)

text \<open>
  C9 (as amended). \<open>send_message\<close> advances the sequence number before it writes and
  the byte and packet counters after the write. When it raises, \<open>sent_bytes\<close> and
  \<open>sent_packets\<close> are unchanged; the outbound sequence number is unchanged when the
  failure comes before the write (an unset engine, a length that does not fit 32 bits)
  and advanced by one, modulo 2^32, when the write itself fails. When it returns, both
  engines were set and the whole frame, that is the four-byte length of the encrypted
  payload, the encrypted payload and its MAC, has been appended to what the socket has
  written; \<open>sent_bytes\<close> has grown by the frame's length and \<open>sent_packets\<close> and the
  sequence number by one.
\<close>

theorem send_message_counters:
  "case send_message s data of
     (Inl e, s') \<Rightarrow>
        sent_bytes s' = sent_bytes s \<and> sent_packets s' = sent_packets s \<and>
        sequence_number_out s' =
          (if e = OSError then (sequence_number_out s + 1) AND 0xffffffff
           else sequence_number_out s)
   | (Inr u, s') \<Rightarrow>
        (case (block_engine_out s, mac_engine_out s) of
           (Some be, Some me) \<Rightarrow>
              outbuf (socket s') =
                outbuf (socket s) @ be32 (int (length (encrypt be data))) @ encrypt be data @
                  digest3 me (mac_key_out s) (sequence_number_out s) (encrypt be data) \<and>
              sent_bytes s' =
                sent_bytes s +
                  int (4 + length (encrypt be data) +
                       length (digest3 me (mac_key_out s) (sequence_number_out s)
                                 (encrypt be data)))
         | _ \<Rightarrow> False) \<and>
        sent_packets s' = sent_packets s + 1 \<and>
        sequence_number_out s' = (sequence_number_out s + 1) AND 0xffffffff"
proof (cases "block_engine_out s")
  case None
  then show ?thesis by (simp add: send_message_def)
next
  case (Some be)
  note be = this
  show ?thesis
  proof (cases "mac_engine_out s")
    case None
    with be show ?thesis by (simp add: send_message_def)
  next
    case (Some me)
    note me = this
    show ?thesis
    proof (cases "pack_I (int (length (encrypt be data)))")
      case (Inl e)
      then have "e = StructError" by (simp add: pack_I_def split: if_splits)
      with Inl be me show ?thesis by (simp add: send_message_def)
    next
      case (Inr len)
      then have len: "len = be32 (int (length (encrypt be data)))"
        by (simp add: pack_I_def split: if_splits)
      have l4: "length (be32 (int (length (encrypt be data)))) = 4"
        by (simp add: be32_def)
      show ?thesis
      proof (cases "wcap (socket s)")
        case None
        with Inr be me show ?thesis
          by (simp add: send_message_def sendall_def Let_def len l4)
      next
        case (Some k)
        with Inr be me show ?thesis
          by (simp add: send_message_def sendall_def Let_def len l4)
      qed
    qed
  qed
qed

text \<open>
  C9 as stated fails: an engine with an identity cipher and an empty MAC whose socket
  accepts no more bytes raises from the write, and its outbound sequence number has gone
  from 0 to 1.
\<close>

theorem failed_write_advances_seq_out:
  "fst (send_message
      (set_outbound_cipher (init \<lparr>inbuf = [], chunk = 64, outbuf = [], wcap = Some 0\<rparr>)
         (Some (CipherEngine (\<lambda>d. d))) 8
         (Some (MacEngine (\<lambda>k q p. []) (\<lambda>k p. []))) 0 [] False False)
      [0x61]) = Inl OSError \<and>
   sequence_number_out (snd (send_message
      (set_outbound_cipher (init \<lparr>inbuf = [], chunk = 64, outbuf = [], wcap = Some 0\<rparr>)
         (Some (CipherEngine (\<lambda>d. d))) 8
         (Some (MacEngine (\<lambda>k q p. []) (\<lambda>k p. []))) 0 [] False False)
      [0x61])) = 1 \<and>
   sequence_number_out
      (set_outbound_cipher (init \<lparr>inbuf = [], chunk = 64, outbuf = [], wcap = Some 0\<rparr>)
         (Some (CipherEngine (\<lambda>d. d))) 8
         (Some (MacEngine (\<lambda>k q p. []) (\<lambda>k p. []))) 0 [] False False) = 0"
  by (simp add: send_message_def set_outbound_cipher_def init_def pack_I_def be32_def
      sendall_def)

subsection \<open>Reading a frame\<close>

text \<open>
  C4. Take a read that gets as far as a complete frame, on an engine whose inbound MAC
  size is positive, whose MAC engine is set and whose inbound sequence number is a 32-bit
  value (as it is in every state that a fresh engine can reach, by
  \<open>run_sequence_number_in_range\<close>). If the MAC computed by the engine over the sequence number and the packet is not
  the MAC that was received, \<open>read_message\<close> raises the exception for a mismatched MAC,
  which is not the one for bad blocking. It raises from the state in which the frame was
  read: the padding byte has not been looked at, no payload is returned, and the inbound
  sequence number and counters are as they were.
\<close>

theorem mac_mismatch_is_fatal:
  assumes frame: "fst (read_frame s) = Inr (packet_size, packet, mac)"
      and size: "0 < mac_size_in s"
      and engine: "mac_engine_in s = Some me"
      and seq: "0 \<le> sequence_number_in s" "sequence_number_in s < 2 ^ 32"
      and differ: "digest2 me (mac_key_in s) (be32 (sequence_number_in s) @ packet) \<noteq> mac"
  shows "read_message s = (Inl (SSHException ''Mismatched MAC''), snd (read_frame s)) \<and>
         SSHException ''Mismatched MAC'' \<noteq> SSHException ''Invalid packet blocking'' \<and>
         sequence_number_in (snd (read_message s)) = sequence_number_in s \<and>
         received_bytes (snd (read_message s)) = received_bytes s \<and>
         received_packets (snd (read_message s)) = received_packets s"
proof -
  define s2 where "s2 = snd (read_frame s)"
  have rf: "read_frame s = (Inr (packet_size, packet, mac), s2)"
    using frame by (simp add: s2_def prod_eq_iff)
  from read_frame_only_socket [OF rf] obtain k where s2: "s2 = s\<lparr>socket := k\<rparr>" by blast
  have "verify_mac s2 packet mac = Some (SSHException ''Mismatched MAC'')"
    using size engine seq differ by (simp add: verify_mac_def pack_I_def s2)
  then have "read_message s = (Inl (SSHException ''Mismatched MAC''), s2)"
    using rf by (simp add: read_message_def)
  then show ?thesis by (simp add: s2 s2_def [symmetric])
qed

text \<open>
  C4 at a concrete frame: block size 8, a one-byte checksum as MAC, and a frame whose last
  byte is not that checksum.
\<close>

theorem mac_mismatch_is_fatal_witness:
  "fst (read_frame
      (set_inbound_cipher
         (init \<lparr>inbuf = [0, 0, 0, 12, 4, 1, 2, 3, 4, 5, 6, 7, 0, 0, 0, 0, 0xBB], chunk = 64,
                outbuf = [], wcap = None\<rparr>)
         None 8 (Some (MacEngine (\<lambda>k q p. [sum_list (k @ p)]) (\<lambda>k p. [sum_list (k @ p)])))
         1 [] False))
     = Inr (12, [4, 1, 2, 3, 4, 5, 6, 7, 0, 0, 0, 0], [0xBB]) \<and>
   fst (read_message
      (set_inbound_cipher
         (init \<lparr>inbuf = [0, 0, 0, 12, 4, 1, 2, 3, 4, 5, 6, 7, 0, 0, 0, 0, 0xBB], chunk = 64,
                outbuf = [], wcap = None\<rparr>)
         None 8 (Some (MacEngine (\<lambda>k q p. [sum_list (k @ p)]) (\<lambda>k p. [sum_list (k @ p)])))
         1 [] False))
     = Inl (SSHException ''Mismatched MAC'')"
proof -
  let ?me = "MacEngine (\<lambda>k q p. [sum_list (k @ p)]) (\<lambda>k p. [sum_list (k @ p)])"
  let ?s = "set_inbound_cipher
         (init \<lparr>inbuf = [0, 0, 0, 12, 4, 1, 2, 3, 4, 5, 6, 7, 0, 0, 0, 0, 0xBB], chunk = 64,
                outbuf = [], wcap = None\<rparr>)
         None 8 (Some ?me) 1 [] False"
  have h1: "fst (read_frame ?s) = Inr (12, [4, 1, 2, 3, 4, 5, 6, 7, 0, 0, 0, 0], [0xBB])"
    by code_simp
  have h2: "0 < mac_size_in ?s" by (simp add: set_inbound_cipher_def)
  have h3: "mac_engine_in ?s = Some ?me" by (simp add: set_inbound_cipher_def)
  have h4: "0 \<le> sequence_number_in ?s" "sequence_number_in ?s < 2 ^ 32"
    by (simp_all add: set_inbound_cipher_def init_def)
  have h5: "digest2 ?me (mac_key_in ?s)
              (be32 (sequence_number_in ?s) @ [4, 1, 2, 3, 4, 5, 6, 7, 0, 0, 0, 0]) \<noteq> [0xBB]"
    by (simp add: set_inbound_cipher_def init_def be32_def)
  from mac_mismatch_is_fatal [OF h1 h2 h3 h4 h5] h1 show ?thesis by simp
qed

text \<open>
  C7 (as amended). Once the header, one block, has been read and its first four bytes
  give the declared length, \<open>read_message\<close> raises the blocking exception exactly when
  the declared length plus the four bytes of the length field is not a multiple of the
  inbound block size, that is, when what is left of the frame after the first block is
  not a whole number of blocks. It raises from the state reached by reading the header:
  nothing of the frame body has been read.
\<close>

theorem invalid_blocking_iff:
  assumes hdr: "fst (read_all s (block_size_in s) True) = Inr header"
      and len: "unpack_I (py_slice header None (Some 4)) = Inr packet_size"
  shows "if (packet_size + 4) mod block_size_in s \<noteq> 0
         then read_message s = (Inl (SSHException ''Invalid packet blocking''),
                                snd (read_all s (block_size_in s) True))
         else fst (read_message s) \<noteq> Inl (SSHException ''Invalid packet blocking'')"
proof -
  define s1 where "s1 = snd (read_all s (block_size_in s) True)"
  have ra: "read_all s (block_size_in s) True = (Inr header, s1)"
    using hdr by (simp add: s1_def prod_eq_iff)
  have s1: "s1 = s\<lparr>socket := socket s1\<rparr>"
    using read_all_only_socket [OF ra] by simp
  have bs1: "block_size_in s1 = block_size_in s" and ms1: "mac_size_in s1 = mac_size_in s"
    by (subst s1, simp)+
  have l4: "length (take 4 header) = 4"
    using unpack_I_length [OF len [unfolded py_slice_head4]] .
  then have ge4: "4 \<le> length header" by simp
  then have ne: "header \<noteq> []" by auto
  from read_all_header_length [OF hdr ne]
  have bs: "block_size_in s = int (length header)" by simp
  have lo: "int (length (py_slice header (Some 4) None)) = block_size_in s - 4"
    using ge4 by (simp add: py_slice_tail4 bs)
  have nz: "block_size_in s \<noteq> 0" using ne bs by simp
  have md: "(packet_size - (block_size_in s - 4)) mod block_size_in s
              = (packet_size + 4) mod block_size_in s"
  proof -
    have "packet_size - (block_size_in s - 4) = (packet_size + 4) - block_size_in s"
      by simp
    then show ?thesis by (simp only: minus_mod_self2)
  qed
  show ?thesis
  proof (cases "(packet_size + 4) mod block_size_in s \<noteq> 0")
    case True
    have "read_frame s = (Inl (SSHException ''Invalid packet blocking''), s1)"
      using True nz by (simp add: read_frame_def ra len Let_def lo md bs1)
    then have "read_message s = (Inl (SSHException ''Invalid packet blocking''), s1)"
      by (simp add: read_message_def)
    with True show ?thesis by (simp add: s1_def)
  next
    case False
    define m where "m = packet_size + mac_size_in s - (block_size_in s - 4)"
    obtain r2 s2 where r2: "read_all s1 m False = (r2, s2)"
      by (cases "read_all s1 m False")
    have "fst (read_message s) \<noteq> Inl (SSHException ''Invalid packet blocking'')"
    proof (cases r2)
      case (Inl e)
      with r2 read_all_unchecked_error [of s1 m e] have "e = EOFError" by simp
      moreover have "read_frame s = (Inl e, s2)"
        using False nz r2 Inl by (simp add: read_frame_def ra len Let_def lo md bs1 ms1 m_def)
      ultimately show ?thesis by (simp add: read_message_def)
    next
      case (Inr buf)
      define packet where
        "packet = py_slice header (Some 4) None @ py_slice buf None (Some (- mac_size_in s2))"
      define mac where "mac = py_slice buf (Some (- mac_size_in s2)) None"
      have rf: "read_frame s = (Inr (packet_size, packet, mac), s2)"
        using False nz r2 Inr
        by (simp add: read_frame_def ra len Let_def lo md bs1 ms1 m_def packet_def mac_def)
      show ?thesis
      proof (cases "verify_mac s2 packet mac")
        case (Some e)
        then have "e \<noteq> SSHException ''Invalid packet blocking''"
          by (auto simp: verify_mac_def pack_I_def split: if_splits sum.splits option.splits)
        with rf Some show ?thesis by (simp add: read_message_def)
      next
        case None
        have "fst (deliver s2 packet_size packet) \<noteq> Inl (SSHException ''Invalid packet blocking'')"
          by (cases packet) (simp_all add: deliver_def Let_def)
        with rf None show ?thesis by (simp add: read_message_def)
      qed
    qed
    with False show ?thesis by simp
  qed
qed

text \<open>
  The amended C7 at two concrete headers, block size 16, delivered by the socket five
  bytes at a time: the declared length 16 is rejected, the declared length 12 is not.
\<close>

theorem invalid_blocking_iff_witness:
  "fst (read_all
          (set_inbound_cipher
             (init \<lparr>inbuf = [0, 0, 0, 16, 4, 1, 2, 3, 4, 5, 6, 7, 8, 9, 10, 11, 0, 0, 0, 0],
                    chunk = 5, outbuf = [], wcap = None\<rparr>) None 16 None 0 [] False)
          16 True) = Inr [0, 0, 0, 16, 4, 1, 2, 3, 4, 5, 6, 7, 8, 9, 10, 11] \<and>
   unpack_I (py_slice [0, 0, 0, 16, 4, 1, 2, 3, 4, 5, 6, 7, 8, 9, 10, 11] None (Some 4))
     = Inr 16 \<and>
   read_message
     (set_inbound_cipher
        (init \<lparr>inbuf = [0, 0, 0, 16, 4, 1, 2, 3, 4, 5, 6, 7, 8, 9, 10, 11, 0, 0, 0, 0],
               chunk = 5, outbuf = [], wcap = None\<rparr>) None 16 None 0 [] False)
     = (Inl (SSHException ''Invalid packet blocking''),
        snd (read_all
          (set_inbound_cipher
             (init \<lparr>inbuf = [0, 0, 0, 16, 4, 1, 2, 3, 4, 5, 6, 7, 8, 9, 10, 11, 0, 0, 0, 0],
                    chunk = 5, outbuf = [], wcap = None\<rparr>) None 16 None 0 [] False)
          16 True)) \<and>
   fst (read_all
          (set_inbound_cipher
             (init \<lparr>inbuf = [0, 0, 0, 12, 4, 1, 2, 3, 4, 5, 6, 7, 0, 0, 0, 0],
                    chunk = 5, outbuf = [], wcap = None\<rparr>) None 16 None 0 [] False)
          16 True) = Inr [0, 0, 0, 12, 4, 1, 2, 3, 4, 5, 6, 7, 0, 0, 0, 0] \<and>
   unpack_I (py_slice [0, 0, 0, 12, 4, 1, 2, 3, 4, 5, 6, 7, 0, 0, 0, 0] None (Some 4))
     = Inr 12 \<and>
   fst (read_message
     (set_inbound_cipher
        (init \<lparr>inbuf = [0, 0, 0, 12, 4, 1, 2, 3, 4, 5, 6, 7, 0, 0, 0, 0],
               chunk = 5, outbuf = [], wcap = None\<rparr>) None 16 None 0 [] False))
     \<noteq> Inl (SSHException ''Invalid packet blocking'')"
proof -
  let ?s = "set_inbound_cipher
             (init \<lparr>inbuf = [0, 0, 0, 16, 4, 1, 2, 3, 4, 5, 6, 7, 8, 9, 10, 11, 0, 0, 0, 0],
                    chunk = 5, outbuf = [], wcap = None\<rparr>) None 16 None 0 [] False"
  let ?t = "set_inbound_cipher
             (init \<lparr>inbuf = [0, 0, 0, 12, 4, 1, 2, 3, 4, 5, 6, 7, 0, 0, 0, 0],
                    chunk = 5, outbuf = [], wcap = None\<rparr>) None 16 None 0 [] False"
  have bs: "block_size_in ?s = 16" by (simp add: set_inbound_cipher_def)
  have bt: "block_size_in ?t = 16" by (simp add: set_inbound_cipher_def)
  have h1: "fst (read_all ?s (block_size_in ?s) True)
              = Inr [0, 0, 0, 16, 4, 1, 2, 3, 4, 5, 6, 7, 8, 9, 10, 11]"
    by code_simp
  have h2: "unpack_I (py_slice [0, 0, 0, 16, 4, 1, 2, 3, 4, 5, 6, 7, 8, 9, 10, 11] None (Some 4))
              = Inr 16"
    by code_simp
  have g1: "fst (read_all ?t (block_size_in ?t) True)
              = Inr [0, 0, 0, 12, 4, 1, 2, 3, 4, 5, 6, 7, 0, 0, 0, 0]"
    by code_simp
  have g2: "unpack_I (py_slice [0, 0, 0, 12, 4, 1, 2, 3, 4, 5, 6, 7, 0, 0, 0, 0] None (Some 4))
              = Inr 12"
    by code_simp
  have a: "read_message ?s = (Inl (SSHException ''Invalid packet blocking''),
                              snd (read_all ?s 16 True))"
    using invalid_blocking_iff [OF h1 h2] by (simp add: bs)
  have b: "fst (read_message ?t) \<noteq> Inl (SSHException ''Invalid packet blocking'')"
    using invalid_blocking_iff [OF g1 g2] by (simp add: bt)
  from a b h1 h2 g1 g2 show ?thesis by (simp only: bs bt simp_thms)
qed

text \<open>
  C7 as stated fails: with the block size 8 of a fresh engine, a header that declares the
  length 8, a multiple of the block size, is rejected for bad blocking.
\<close>

theorem aligned_length_rejected:
  "fst (read_all (init \<lparr>inbuf = [0, 0, 0, 8, 4, 2, 3, 4, 5, 6, 7, 8], chunk = 64, outbuf = [],
                         wcap = None\<rparr>)
         (block_size_in (init \<lparr>inbuf = [0, 0, 0, 8, 4, 2, 3, 4, 5, 6, 7, 8], chunk = 64,
                                outbuf = [], wcap = None\<rparr>)) True)
     = Inr [0, 0, 0, 8, 4, 2, 3, 4] \<and>
   unpack_I (py_slice [0, 0, 0, 8, 4, 2, 3, 4] None (Some 4)) = Inr 8 \<and>
   (8 :: int) mod block_size_in (init \<lparr>inbuf = [0, 0, 0, 8, 4, 2, 3, 4, 5, 6, 7, 8],
                                         chunk = 64, outbuf = [], wcap = None\<rparr>) = 0 \<and>
   fst (read_message (init \<lparr>inbuf = [0, 0, 0, 8, 4, 2, 3, 4, 5, 6, 7, 8], chunk = 64,
                             outbuf = [], wcap = None\<rparr>))
     = Inl (SSHException ''Invalid packet blocking'')"
  by code_simp

subsection \<open>Rekeying\<close>

text \<open>
  C3. \<open>need_rekey\<close> should answer true as soon as any of the four counters reaches
  2^29. The code looks at the flag and at the two outbound counters only: with
  \<open>received_bytes\<close> or \<open>received_packets\<close> at 2^29 and everything else as
  \<open>__init__\<close> leaves it, the answer is false.
\<close>

theorem need_rekey_ignores_inbound_counters:
  "\<not> need_rekey ((init sock)\<lparr>received_bytes := 2 ^ 29\<rparr>) \<and>
   \<not> need_rekey ((init sock)\<lparr>received_packets := 2 ^ 29\<rparr>)"
  by (simp add: need_rekey_def init_def REKEY_BYTES_def REKEY_PACKETS_def)

subsection \<open>The handshake timer\<close>

text \<open>
  C8. After \<open>start_handshake\<close> and a wait beyond the deadline, \<open>handshake_timed_out\<close>
  should be true. In the code \<open>start_handshake\<close> raises before it builds the timer,
  and no method assigns the expiry flag: whatever happens to a fresh engine, in whatever
  order, it holds no timer afterwards and \<open>handshake_timed_out\<close> is false.
\<close>

theorem handshake_never_times_out:
  "fst (start_handshake s timeout) = Inl AttributeError \<and>
   timer (run (init sock) evs) = None \<and>
   \<not> handshake_timed_out (run (init sock) evs)"
proof -
  have "timer (init sock) = None" and "\<not> timer_expired (init sock)"
    by (simp_all add: init_def)
  with run_keeps_timer [of "init sock" evs] show ?thesis
    by (simp add: handshake_timed_out_def start_handshake_def)
qed

subsection \<open>Multi-precision integers\<close>

text \<open>
  C5. \<open>inflate_long\<close> after \<open>deflate_long\<close> should give the integer back, and the
  encoding should be the shortest two's-complement one. In the code \<open>-1\<close> is encoded as
  the empty string and decoded as 0, \<open>-128\<close> comes back as 128, and 127 is encoded in
  four bytes instead of one.
\<close>

theorem long_roundtrip_fails:
  "inflate_long (deflate_long (- 1) True) False = Inr 0 \<and>
   inflate_long (deflate_long (- 128) True) False = Inr 128 \<and>
   deflate_long 127 True = [0x00, 0x00, 0x00, 0x7F]"
  by code_simp

text \<open>
  C6. \<open>deflate_long\<close> should strip the redundant leading 0x00 and 0xFF bytes. The
  stripping loop compares each byte, an integer, with the strings \<open>'\000'\<close> and
  \<open>'\xff'\<close>, so it stops at the first byte whatever its value: 1 keeps three leading
  zero bytes and \<open>-2\<close> three leading 0xFF bytes.
\<close>

theorem deflate_long_keeps_leading_bytes:
  "deflate_long 1 True = [0x00, 0x00, 0x00, 0x01] \<and>
   deflate_long (- 2) True = [0xFF, 0xFF, 0xFF, 0xFE]"
  by code_simp

subsection \<open>Replacing a cipher slot\<close>

text \<open>
  C10. \<open>set_outbound_cipher\<close> writes the seven outbound slot attributes and nothing
  else, \<open>set_inbound_cipher\<close> the six inbound ones and nothing else: putting the old
  values of those attributes back gives the state before the call, and in particular the
  sequence numbers, the four counters, the rekey flag and the other direction's slot are
  as they were.
\<close>

theorem set_cipher_frame:
  fixes s :: packetizer and be :: "cipher_engine option" and bs :: int
    and me :: "mac_engine option" and ms :: int and mk :: bytes and sdctr :: bool and etm :: bool
  defines "so \<equiv> set_outbound_cipher s be bs me ms mk sdctr etm"
      and "si \<equiv> set_inbound_cipher s be bs me ms mk etm"
  shows "so\<lparr>block_engine_out := block_engine_out s, block_size_out := block_size_out s,
            mac_engine_out := mac_engine_out s, mac_size_out := mac_size_out s,
            mac_key_out := mac_key_out s, sdctr_out := sdctr_out s, etm_out := etm_out s\<rparr> = s \<and>
         si\<lparr>block_engine_in := block_engine_in s, block_size_in := block_size_in s,
            mac_engine_in := mac_engine_in s, mac_size_in := mac_size_in s,
            mac_key_in := mac_key_in s, etm_in := etm_in s\<rparr> = s \<and>
         sequence_number_out so = sequence_number_out s \<and>
         sequence_number_in so = sequence_number_in s \<and>
         sent_bytes so = sent_bytes s \<and> sent_packets so = sent_packets s \<and>
         received_bytes so = received_bytes s \<and> received_packets so = received_packets s \<and>
         need_rekey_flag so = need_rekey_flag s \<and>
         block_engine_in so = block_engine_in s \<and> block_size_in so = block_size_in s \<and>
         mac_engine_in so = mac_engine_in s \<and> mac_size_in so = mac_size_in s \<and>
         mac_key_in so = mac_key_in s \<and> etm_in so = etm_in s \<and>
         sequence_number_out si = sequence_number_out s \<and>
         sequence_number_in si = sequence_number_in s \<and>
         sent_bytes si = sent_bytes s \<and> sent_packets si = sent_packets s \<and>
         received_bytes si = received_bytes s \<and> received_packets si = received_packets s \<and>
         need_rekey_flag si = need_rekey_flag s \<and>
         block_engine_out si = block_engine_out s \<and> block_size_out si = block_size_out s \<and>
         mac_engine_out si = mac_engine_out s \<and> mac_size_out si = mac_size_out s \<and>
         mac_key_out si = mac_key_out s \<and> sdctr_out si = sdctr_out s \<and>
         etm_out si = etm_out s \<and>
         block_engine_out so = be \<and> block_size_out so = bs \<and> mac_engine_out so = me \<and>
         mac_size_out so = ms \<and> mac_key_out so = mk \<and> sdctr_out so = sdctr \<and>
         etm_out so = etm \<and>
         block_engine_in si = be \<and> block_size_in si = bs \<and> mac_engine_in si = me \<and>
         mac_size_in si = ms \<and> mac_key_in si = mk \<and> etm_in si = etm"
  unfolding so_def si_def
  by (simp add: set_outbound_cipher_def set_inbound_cipher_def)

end
